theory Spec2Isabelle
  imports Complex_Main "HOL-Library.Word" "HOL-Library.Char_ord" "HOL-Library.List_Lexorder"
begin

unbundle bit_operations_syntax

section \<open>The tree model (class \<open>Model\<close> of model.cpp)\<close>

text \<open>
  \<open>Model\<close> is one class with a \<open>terminal\<close> flag: a terminal node carries
  \<open>binary_target\<close>, \<open>_loss\<close>, \<open>_complexity\<close> and \<open>capture_set\<close>, a non-terminal node
  carries \<open>binary_feature\<close>, \<open>feature\<close>, \<open>negative\<close> and \<open>positive\<close>. The two constructors
  of the class are the two constructors of the datatype. The class \<open>Bitmask\<close> is declared
  outside model.cpp: its values are the type parameter \<open>'b\<close>, and its members
  \<open>Bitmask::hash\<close> and \<open>Bitmask::operator!=\<close> are the parameters \<open>bhash\<close> and \<open>bne\<close> of the
  functions that call them. The two \<open>float\<close> fields are values of the type parameter \<open>'f\<close>.
  A \<open>capture_set\<close> is a shared pointer that the leaf constructor dereferences, so a
  constructed leaf always holds a bitmask; the model stores the bitmask itself.
\<close>

datatype ('b, 'f) model =
    Leaf nat 'f 'f 'b
  | Split nat nat "('b, 'f) model" "('b, 'f) model"

text \<open>\<open>size_t\<close> on the 64-bit targets the library is built for.\<close>

type_synonym size_t = "64 word"

text \<open>
  \<open>Model::_partitions\<close>: pushes the capture set of every leaf onto \<open>addresses\<close>, the
  negative subtree first.
\<close>

fun partitions_aux :: "('b, 'f) model \<Rightarrow> 'b list \<Rightarrow> 'b list" where
  "partitions_aux (Leaf binary_target leaf_loss leaf_complexity capture_set) addresses =
     addresses @ [capture_set]"
| "partitions_aux (Split binary_feature feature negative positive) addresses =
     partitions_aux positive (partitions_aux negative addresses)"

text \<open>The \<open>for\<close> loop of \<open>Model::partitions\<close>: every address is pushed onto the output vector.\<close>

fun push_all :: "'a list \<Rightarrow> 'a list \<Rightarrow> 'a list" where
  "push_all [] sorted_addresses = sorted_addresses"
| "push_all (a # addresses) sorted_addresses = push_all addresses (sorted_addresses @ [a])"

text \<open>
  \<open>Model::partitions\<close>: the map \<open>sorted\<close> of the source is declared and never filled (the
  code that filled it is commented out), so it is not part of the model.
\<close>

definition partitions :: "('b, 'f) model \<Rightarrow> 'b list \<Rightarrow> 'b list" where
  "partitions t sorted_addresses = push_all (partitions_aux t []) sorted_addresses"

text \<open>The loop of \<open>Model::hash\<close>; \<open>+\<close> on \<open>size_t\<close> wraps, \<open><<\<close> and \<open>>>\<close> are logical shifts.\<close>

fun hash_loop :: "('b \<Rightarrow> size_t) \<Rightarrow> 'b list \<Rightarrow> size_t \<Rightarrow> size_t" where
  "hash_loop bhash [] seed = seed"
| "hash_loop bhash (a # addresses) seed =
     hash_loop bhash addresses
       (seed XOR (bhash a + 0x9e3779b9 + push_bit 6 seed + drop_bit 2 seed))"

definition hash :: "('b \<Rightarrow> size_t) \<Rightarrow> ('b, 'f) model \<Rightarrow> size_t" where
  "hash bhash t =
     (let addresses = partitions t [] in
      hash_loop bhash addresses (of_nat (length addresses)))"

text \<open>The \<open>while\<close> loop of \<open>Model::operator==\<close>: it stops when either iterator is at its end.\<close>

fun eq_loop :: "('b \<Rightarrow> 'b \<Rightarrow> bool) \<Rightarrow> 'b list \<Rightarrow> 'b list \<Rightarrow> bool" where
  "eq_loop bne (a # masks) (b # other_masks) =
     (if bne a b then False else eq_loop bne masks other_masks)"
| "eq_loop bne [] other_masks = True"
| "eq_loop bne masks [] = True"

definition operator_eq ::
  "('b \<Rightarrow> size_t) \<Rightarrow> ('b \<Rightarrow> 'b \<Rightarrow> bool) \<Rightarrow> ('b, 'f) model \<Rightarrow> ('b, 'f) model \<Rightarrow> bool" where
  "operator_eq bhash bne t other =
     (if hash bhash t \<noteq> hash bhash other then False
      else
        (let masks = partitions t [];
             other_masks = partitions other []
         in if length masks \<noteq> length other_masks then False
            else eq_loop bne masks other_masks))"

text \<open>
  \<open>Model::loss\<close> and \<open>Model::complexity\<close>. The operator \<open>+\<close> on \<open>float\<close> is the parameter
  \<open>add\<close>.
\<close>

fun loss :: "('f \<Rightarrow> 'f \<Rightarrow> 'f) \<Rightarrow> ('b, 'f) model \<Rightarrow> 'f" where
  "loss add (Leaf binary_target leaf_loss leaf_complexity capture_set) = leaf_loss"
| "loss add (Split binary_feature feature negative positive) =
     add (loss add negative) (loss add positive)"

fun complexity :: "('f \<Rightarrow> 'f \<Rightarrow> 'f) \<Rightarrow> ('b, 'f) model \<Rightarrow> 'f" where
  "complexity add (Leaf binary_target leaf_loss leaf_complexity capture_set) = leaf_complexity"
| "complexity add (Split binary_feature feature negative positive) =
     add (complexity add negative) (complexity add positive)"

subsection \<open>Addition of \<open>float\<close>\<close>

text \<open>
  The addition of two \<open>float\<close> values that the theorems on \<open>loss\<close> are applied to: IEEE 754
  binary32, rounding to nearest with ties to even. A finite \<open>float\<close> is the rational it
  denotes; the sum is the exact sum rounded to 24 significant bits at the exponent of
  the sum, which is at least \<open>-126\<close> (below it the values are subnormal). Sums that
  overflow, the infinities and not-a-number are left out.
\<close>

text \<open>How often a value can be halved before it is below 2.\<close>

function halvings :: "rat \<Rightarrow> nat" where
  "halvings x = (if x < 2 then 0 else Suc (halvings (x / 2)))"
  by pat_completeness auto
termination
proof (relation "measure (\<lambda>x. nat \<lfloor>x\<rfloor>)")
  fix x :: rat
  assume big: "\<not> x < 2"
  then have "x / 2 \<le> x - 1" by simp
  then have "\<lfloor>x / 2\<rfloor> \<le> \<lfloor>x - 1\<rfloor>" by (rule floor_mono)
  moreover have "2 \<le> \<lfloor>x\<rfloor>" using big by (simp add: le_floor_iff)
  ultimately show "(x / 2, x) \<in> measure (\<lambda>x. nat \<lfloor>x\<rfloor>)" by simp
qed simp

text \<open>How often a positive value below 1 is doubled before it reaches 1.\<close>

function doublings :: "rat \<Rightarrow> nat" where
  "doublings x = (if x \<le> 0 \<or> 1 \<le> x then 0 else Suc (doublings (2 * x)))"
  by pat_completeness auto
termination
proof (relation "measure (\<lambda>x. nat \<lceil>1 / x\<rceil>)")
  fix x :: rat
  assume "\<not> (x \<le> 0 \<or> 1 \<le> x)"
  then have pos: "0 < x" and small: "x < 1" by simp_all
  have "1 < 1 / x" using pos small by simp
  then have two: "2 \<le> \<lceil>1 / x\<rceil>" by (simp add: less_ceiling_iff)
  have "1 / x \<le> of_int \<lceil>1 / x\<rceil>" by (rule le_of_int_ceiling)
  then have "1 / (2 * x) \<le> of_int \<lceil>1 / x\<rceil> / 2" by simp
  also have "\<dots> \<le> of_int (\<lceil>1 / x\<rceil> - 1)" using two by simp
  finally have "\<lceil>1 / (2 * x)\<rceil> \<le> \<lceil>1 / x\<rceil> - 1" by (simp only: ceiling_le_iff)
  with two have "nat \<lceil>1 / (2 * x)\<rceil> < nat \<lceil>1 / x\<rceil>" by linarith
  then show "(2 * x, x) \<in> measure (\<lambda>x. nat \<lceil>1 / x\<rceil>)"
    by (simp only: in_measure)
qed simp

declare halvings.simps [simp del] doublings.simps [simp del]

text \<open>The exponent \<open>e\<close> of a value: \<open>2^e \<le> |x| < 2^(e+1)\<close>, and \<open>-126\<close> for smaller values.\<close>

definition exponent32 :: "rat \<Rightarrow> int" where
  "exponent32 x =
     (let a = \<bar>x\<bar> in max (- 126) (if 1 \<le> a then int (halvings a) else - int (doublings a)))"

text \<open>The nearest integer; a value half way between two integers goes to the even one.\<close>

definition round_even :: "rat \<Rightarrow> int" where
  "round_even m =
     (let f = \<lfloor>m\<rfloor>; d = m - of_int f
      in if d < 1 / 2 then f else if 1 / 2 < d then f + 1 else if even f then f else f + 1)"

definition round32 :: "rat \<Rightarrow> rat" where
  "round32 x = (let ulp = 2 powi (exponent32 x - 23) in of_int (round_even (x / ulp)) * ulp)"

definition float_add :: "rat \<Rightarrow> rat \<Rightarrow> rat" where
  "float_add a b = round32 (a + b)"

subsection \<open>The sequences of the specification\<close>

text \<open>
  The sequence the specification describes: the leaves of a depth-first traversal that
  visits the negative child before the positive child.
\<close>

fun leaves_dfs :: "('b, 'f) model \<Rightarrow> 'b list" where
  "leaves_dfs (Leaf binary_target leaf_loss leaf_complexity capture_set) = [capture_set]"
| "leaves_dfs (Split binary_feature feature negative positive) =
     leaves_dfs negative @ leaves_dfs positive"

text \<open>The loss and the complexity of every leaf, in the order of \<open>leaves_dfs\<close>.\<close>

fun leaf_losses :: "('b, 'f) model \<Rightarrow> 'f list" where
  "leaf_losses (Leaf binary_target leaf_loss leaf_complexity capture_set) = [leaf_loss]"
| "leaf_losses (Split binary_feature feature negative positive) =
     leaf_losses negative @ leaf_losses positive"

fun leaf_complexities :: "('b, 'f) model \<Rightarrow> 'f list" where
  "leaf_complexities (Leaf binary_target leaf_loss leaf_complexity capture_set) =
     [leaf_complexity]"
| "leaf_complexities (Split binary_feature feature negative positive) =
     leaf_complexities negative @ leaf_complexities positive"

text \<open>
  The sum over a sequence, taken from the first element to the last; the empty sequence
  has no sum.
\<close>

fun sum_seq :: "('f \<Rightarrow> 'f \<Rightarrow> 'f) \<Rightarrow> 'f list \<Rightarrow> 'f option" where
  "sum_seq add [] = None"
| "sum_seq add (x # xs) = Some (foldl add x xs)"

text \<open>A tree whose positive children are all leaves: its sum is taken from left to right.\<close>

fun left_comb :: "('b, 'f) model \<Rightarrow> bool" where
  "left_comb (Leaf binary_target leaf_loss leaf_complexity capture_set) = True"
| "left_comb (Split binary_feature feature negative
      (Leaf binary_target leaf_loss leaf_complexity capture_set)) = left_comb negative"
| "left_comb (Split binary_feature feature negative
      (Split binary_feature' feature' negative' positive')) = False"

section \<open>Documents (the \<open>json\<close> values that \<open>summarize\<close> and \<open>translate_json\<close> rewrite)\<close>

text \<open>
  The document type is the JSON value of the library model.cpp includes. A number is kept
  by its value, a rational: the library compares and tests numbers of its integer and
  floating kinds by value, and the code below never does arithmetic on a floating number
  (not-a-number and the infinities are left out). An object is the key-sorted list of its
  members, as the ordered map that holds them in the library; \<open>obj_put\<close> keeps it sorted, so
  equality of objects built from the empty object is equality of the lists.
\<close>

datatype json =
    JNull
  | JBool bool
  | JNum rat
  | JStr string
  | JArr "json list"
  | JObj "(string \<times> json) list"

text \<open>
  What a call can end in other than a value: the two exceptions the code can raise (a
  \<open>type_error\<close> of the document library with its number, \<open>std::out_of_range\<close> from
  \<open>vector::at\<close>), and \<open>Undefined_behaviour\<close>, which is not an exception: it marks a path on
  which the C++ program reads a local variable that no branch has assigned, where the
  language defines no behaviour and nothing is thrown.
\<close>

datatype error = Type_error nat | Out_of_range | Undefined_behaviour

subsection \<open>Members of an object\<close>

text \<open>\<open>node[k] = v\<close> on an object: the member is replaced, or inserted at its sorted place.\<close>

fun obj_put :: "string \<Rightarrow> json \<Rightarrow> (string \<times> json) list \<Rightarrow> (string \<times> json) list" where
  "obj_put k v [] = [(k, v)]"
| "obj_put k v ((k', v') # node) =
     (if k = k' then (k, v) # node
      else if k < k' then (k, v) # (k', v') # node
      else (k', v') # obj_put k v node)"

text \<open>
  The value of \<open>node[k]\<close> on an object: the subscript operator inserts a null member when
  the key is absent, so the value read is null then.
\<close>

definition obj_get :: "(string \<times> json) list \<Rightarrow> string \<Rightarrow> json" where
  "obj_get node k = (case map_of node k of Some v \<Rightarrow> v | None \<Rightarrow> JNull)"

definition has_key :: "(string \<times> json) list \<Rightarrow> string \<Rightarrow> bool" where
  "has_key node k = (map_of node k \<noteq> None)"

definition obj_erase :: "string \<Rightarrow> (string \<times> json) list \<Rightarrow> (string \<times> json) list" where
  "obj_erase k node = filter (\<lambda>member. fst member \<noteq> k) node"

text \<open>\<open>j.contains(k)\<close>: false on everything that is not an object.\<close>

definition contains :: "json \<Rightarrow> string \<Rightarrow> bool" where
  "contains j k = (case j of JObj node \<Rightarrow> has_key node k | _ \<Rightarrow> False)"

text \<open>
  The value of \<open>j[k]\<close> and of \<open>j[i]\<close> on any document: a null becomes an empty object
  (or array) first, an array is filled with nulls up to the index, and any other kind of
  value raises \<open>type_error\<close> 305.
\<close>

definition at_key :: "json \<Rightarrow> string \<Rightarrow> error + json" where
  "at_key j k =
     (case j of
        JNull \<Rightarrow> Inr JNull
      | JObj node \<Rightarrow> Inr (obj_get node k)
      | _ \<Rightarrow> Inl (Type_error 305))"

definition at_index :: "json \<Rightarrow> nat \<Rightarrow> error + json" where
  "at_index j i =
     (case j of
        JNull \<Rightarrow> Inr JNull
      | JArr xs \<Rightarrow> Inr (if i < length xs then xs ! i else JNull)
      | _ \<Rightarrow> Inl (Type_error 305))"

text \<open>\<open>j[i] = v\<close>.\<close>

definition set_index :: "json \<Rightarrow> nat \<Rightarrow> json \<Rightarrow> error + json" where
  "set_index j i v =
     (case j of
        JNull \<Rightarrow> Inr (JArr ((replicate (Suc i) JNull)[i := v]))
      | JArr xs \<Rightarrow> Inr (JArr ((xs @ replicate (Suc i - length xs) JNull)[i := v]))
      | _ \<Rightarrow> Inl (Type_error 305))"

text \<open>
  What \<open>begin()\<close> to \<open>end()\<close> visits: the elements of an array, the member values of an
  object, nothing for null, and the value itself once for any other value.
\<close>

fun items :: "json \<Rightarrow> json list" where
  "items JNull = []"
| "items (JArr xs) = xs"
| "items (JObj node) = map snd node"
| "items j = [j]"

text \<open>
  A braced initialiser list: when every element is a two-element array that starts with a
  string the list is an object (a key that comes twice keeps its first value), otherwise it
  is an array.
\<close>

fun is_pair :: "json \<Rightarrow> bool" where
  "is_pair (JArr [JStr k, v]) = True"
| "is_pair j = False"

fun emplace :: "json \<Rightarrow> (string \<times> json) list \<Rightarrow> (string \<times> json) list" where
  "emplace (JArr [JStr k, v]) node = (if has_key node k then node else obj_put k v node)"
| "emplace j node = node"

definition init_list :: "json list \<Rightarrow> json" where
  "init_list init = (if list_all is_pair init then JObj (fold emplace init []) else JArr init)"

subsection \<open>The order of documents\<close>

text \<open>
  \<open>operator<\<close> of the library: values of one kind compare by value (arrays and objects
  lexicographically), values of two kinds by the rank of the kind.
\<close>

fun type_order :: "json \<Rightarrow> nat" where
  "type_order JNull = 0"
| "type_order (JBool b) = 1"
| "type_order (JNum n) = 2"
| "type_order (JObj node) = 3"
| "type_order (JArr xs) = 4"
| "type_order (JStr s) = 5"

function (sequential) json_less :: "json \<Rightarrow> json \<Rightarrow> bool"
  and array_less :: "json list \<Rightarrow> json list \<Rightarrow> bool"
  and object_less :: "(string \<times> json) list \<Rightarrow> (string \<times> json) list \<Rightarrow> bool" where
  "json_less (JArr xs) (JArr ys) = array_less xs ys"
| "json_less (JObj xs) (JObj ys) = object_less xs ys"
| "json_less (JStr s) (JStr t) = (s < t)"
| "json_less (JBool a) (JBool b) = (a < b)"
| "json_less (JNum a) (JNum b) = (a < b)"
| "json_less a b = (type_order a < type_order b)"
| "array_less [] ys = (ys \<noteq> [])"
| "array_less (x # xs) [] = False"
| "array_less (x # xs) (y # ys) =
     (if json_less x y then True else if json_less y x then False else array_less xs ys)"
| "object_less [] ys = (ys \<noteq> [])"
| "object_less (x # xs) [] = False"
| "object_less ((k, v) # xs) ((k', v') # ys) =
     (if k < k' \<or> (\<not> k' < k \<and> json_less v v') then True
      else if k' < k \<or> (\<not> k < k' \<and> json_less v' v) then False
      else object_less xs ys)"
  by pat_completeness auto
termination
  by (relation "measure (case_sum (\<lambda>(a, b). size a + size b)
        (case_sum (\<lambda>(xs, ys). size_list size xs + size_list size ys)
                  (\<lambda>(xs, ys). size_list (size_prod (\<lambda>_. 0) size) xs
                             + size_list (size_prod (\<lambda>_. 0) size) ys)))")
     auto

text \<open>\<open>std::max(a, b)\<close> is \<open>a < b ? b : a\<close> and \<open>std::min(a, b)\<close> is \<open>b < a ? b : a\<close>.\<close>

definition json_max :: "json \<Rightarrow> json \<Rightarrow> json" where
  "json_max a b = (if json_less a b then b else a)"

definition json_min :: "json \<Rightarrow> json \<Rightarrow> json" where
  "json_min a b = (if json_less b a then b else a)"

subsection \<open>\<open>Model::intersect\<close>\<close>

text \<open>
  One of the two statements of \<open>Model::intersect\<close>, for the bound at index \<open>i\<close>: the
  conditions short-circuit, so \<open>dest[i]\<close> is read only when \<open>src[i]\<close> is not null. The
  function returns the new value of \<open>dest\<close>. In \<open>summarize\<close> the argument \<open>src\<close> is the
  two-element guard of a branch, which the subscripts \<open>src[0]\<close> and \<open>src[1]\<close> leave as
  it is.
\<close>

definition intersect_bound ::
  "(json \<Rightarrow> json \<Rightarrow> json) \<Rightarrow> nat \<Rightarrow> json \<Rightarrow> json \<Rightarrow> error + json" where
  "intersect_bound pick i src dest =
     (case at_index src i of
        Inl e \<Rightarrow> Inl e
      | Inr s \<Rightarrow>
          if s = JNull then Inr dest
          else
            (case at_index dest i of
               Inl e \<Rightarrow> Inl e
             | Inr d \<Rightarrow>
                 if d \<noteq> JNull then set_index dest i (pick s d)
                 else set_index dest i s))"

definition intersect :: "json \<Rightarrow> json \<Rightarrow> error + json" where
  "intersect src dest =
     (case intersect_bound json_max 0 src dest of
        Inl e \<Rightarrow> Inl e
      | Inr dest \<Rightarrow> intersect_bound json_min 1 src dest)"

subsection \<open>\<open>Model::summarize\<close>\<close>

text \<open>
  The inner loop of \<open>summarize\<close>, over the children of a child that splits on the feature
  of the node: \<open>numeric\<close> is \<open>integral || rational\<close>. It returns \<open>new_children\<close>.
\<close>

fun promote_loop ::
  "bool \<Rightarrow> bool \<Rightarrow> json \<Rightarrow> json list \<Rightarrow> json list \<Rightarrow> error + json list" where
  "promote_loop numeric categorical condition [] new_children = Inr new_children"
| "promote_loop numeric categorical condition (sub_it # rest) new_children =
     (case at_key sub_it ''in'' of
        Inl e \<Rightarrow> Inl e
      | Inr subcondition \<Rightarrow>
     (case at_key sub_it ''then'' of
        Inl e \<Rightarrow> Inl e
      | Inr grandchild \<Rightarrow>
          if numeric then
            (case at_index subcondition 0 of
               Inl e \<Rightarrow> Inl e
             | Inr lower \<Rightarrow>
            (case at_index subcondition 1 of
               Inl e \<Rightarrow> Inl e
             | Inr upper \<Rightarrow>
            (case intersect condition (init_list [lower, upper]) of
               Inl e \<Rightarrow> Inl e
             | Inr promoted_condition \<Rightarrow>
                 promote_loop numeric categorical condition rest
                   (new_children @
                      [init_list [JArr [JStr ''in'', promoted_condition],
                                  JArr [JStr ''then'', grandchild]]]))))
          else if categorical then
            promote_loop numeric categorical condition rest
              (new_children @
                 [init_list [JArr [JStr ''in'', subcondition], JArr [JStr ''then'', grandchild]]])
          else promote_loop numeric categorical condition rest new_children))"

text \<open>
  The outer loop, over the two entries of \<open>node["children"]\<close>; both are objects that
  \<open>summarize\<close> has just built, \<open>feature\<close> is \<open>node["feature"]\<close>.
\<close>

fun children_loop ::
  "bool \<Rightarrow> bool \<Rightarrow> json \<Rightarrow> (string \<times> json) list list \<Rightarrow> json list \<Rightarrow> error + json list" where
  "children_loop numeric categorical feature [] new_children = Inr new_children"
| "children_loop numeric categorical feature (it # rest) new_children =
     (let condition = obj_get it ''in'';
          child = obj_get it ''then''
      in if contains child ''feature'' \<and> at_key child ''feature'' = Inr feature then
           (case at_key child ''children'' of
              Inl e \<Rightarrow> Inl e
            | Inr grandchildren \<Rightarrow>
           (case promote_loop numeric categorical condition (items grandchildren) new_children of
              Inl e \<Rightarrow> Inl e
            | Inr new_children \<Rightarrow> children_loop numeric categorical feature rest new_children))
         else
           children_loop numeric categorical feature rest
             (new_children @
                [init_list [JArr [JStr ''in'', condition], JArr [JStr ''then'', child]]]))"

text \<open>The object after \<open>node[k]\<close> was evaluated: an absent member is there, and null.\<close>

definition obj_ref :: "(string \<times> json) list \<Rightarrow> string \<Rightarrow> (string \<times> json) list" where
  "obj_ref node k = (if has_key node k then node else obj_put k JNull node)"

text \<open>
  The body of \<open>summarize\<close> after the two recursive calls. \<open>node["type"]\<close> stays in the
  node when it was absent; the members \<open>"true"\<close>, \<open>"false"\<close> and \<open>"reference"\<close> that a
  subscript may insert are erased before the function returns, and the first value of
  \<open>node["children"]\<close> is the list \<open>children\<close>, overwritten by the last assignment.
\<close>

definition summarize_split :: "(string \<times> json) list \<Rightarrow> error + json" where
  "summarize_split node =
     (let node = obj_ref node ''type'';
          integral = (obj_get node ''type'' = JStr ''integral'');
          rational = (obj_get node ''type'' = JStr ''rational'');
          categorical = (obj_get node ''type'' = JStr ''categorical'');
          child0 = obj_put ''then'' (obj_get node ''true'') [];
          child1 = obj_put ''then'' (obj_get node ''false'') [];
          children =
            (if integral \<or> rational then
               [obj_put ''in'' (init_list [obj_get node ''reference'', JNull]) child0,
                obj_put ''in'' (init_list [JNull, obj_get node ''reference'']) child1]
             else if categorical then
               [obj_put ''in'' (obj_get node ''reference'') child0,
                obj_put ''in'' (JStr ''default'') child1]
             else [child0, child1]);
          node = obj_erase ''reference'' node;
          node = obj_erase ''relation'' node;
          node = obj_erase ''true'' node;
          node = obj_erase ''false'' node
      in case children_loop (integral \<or> rational) categorical (obj_get node ''feature'')
                children [] of
           Inl e \<Rightarrow> Inl e
         | Inr new_children \<Rightarrow> Inr (JObj (obj_put ''children'' (JArr new_children) node)))"

text \<open>
  \<open>Model::summarize\<close>, returning the new value of \<open>node\<close>. Only an object contains a key;
  the two recursive calls rewrite the members \<open>"true"\<close> and \<open>"false"\<close> in place.
\<close>

function summarize :: "json \<Rightarrow> error + json" where
  "summarize (JObj node) =
     (if has_key node ''feature'' then
        (case summarize (obj_get node ''true'') of
           Inl e \<Rightarrow> Inl e
         | Inr true_node \<Rightarrow>
        (case summarize (obj_get node ''false'') of
           Inl e \<Rightarrow> Inl e
         | Inr false_node \<Rightarrow>
             summarize_split (obj_put ''false'' false_node (obj_put ''true'' true_node node))))
      else Inr (JObj node))"
| "summarize JNull = Inr JNull"
| "summarize (JBool b) = Inr (JBool b)"
| "summarize (JNum n) = Inr (JNum n)"
| "summarize (JStr s) = Inr (JStr s)"
| "summarize (JArr xs) = Inr (JArr xs)"
  by pat_completeness auto
termination
proof (relation "measure size")
  have member_smaller:
    "size (obj_get node k) < Suc (size_list (size_prod (\<lambda>x. 0) size) node)" for node k
    by (induction node) (auto simp: obj_get_def)
  fix node :: "(string \<times> json) list"
  show "(obj_get node ''true'', JObj node) \<in> measure size"
    using member_smaller [of node "''true''"] by simp
  show "(obj_get node ''false'', JObj node) \<in> measure size"
    using member_smaller [of node "''false''"] by simp
qed simp

subsection \<open>\<open>Model::translate_json\<close>\<close>

text \<open>
  C++ \<open>int\<close> is 32 bits wide: \<open>int32\<close> is the value an integer has after conversion to
  \<open>int\<close>. The sum of an \<open>int\<close> and the \<open>unsigned int\<close> feature count is computed modulo
  \<open>2^32\<close> and stored in an \<open>int\<close>, which is \<open>int32\<close> of the exact sum.
\<close>

definition int32 :: "int \<Rightarrow> int" where
  "int32 x = (x + 2 ^ 31) mod 2 ^ 32 - 2 ^ 31"

text \<open>
  Conversion of a floating number to an integer rounds towards zero; a whole number is its
  own value.
\<close>

definition truncate :: "rat \<Rightarrow> int" where
  "truncate r = (if 0 \<le> r then \<lfloor>r\<rfloor> else \<lceil>r\<rceil>)"

text \<open>
  The conversion of a document to \<open>int\<close>: defined on numbers and booleans, \<open>type_error\<close>
  302 on every other value.
\<close>

definition get_int :: "json \<Rightarrow> error + int" where
  "get_int j =
     (case j of
        JNum n \<Rightarrow> Inr (int32 (truncate n))
      | JBool b \<Rightarrow> Inr (if b then 1 else 0)
      | _ \<Rightarrow> Inl (Type_error 302))"

text \<open>
  \<open>std::distance(main.begin(), std::find(main.begin(), main.end(), x))\<close>: the position
  of the first \<open>x\<close>, or the length of \<open>main\<close> when there is none. A \<open>translation_type\<close> is
  a vector of \<open>int\<close>.
\<close>

fun find_distance :: "int list \<Rightarrow> int \<Rightarrow> nat" where
  "find_distance [] x = 0"
| "find_distance (y # ys) x = (if y = x then 0 else Suc (find_distance ys x))"

text \<open>\<open>alternative.at(i)\<close>.\<close>

definition vector_at :: "int list \<Rightarrow> nat \<Rightarrow> error + int" where
  "vector_at xs i = (if i < length xs then Inr (xs ! i) else Inl Out_of_range)"

text \<open>
  \<open>Model::translate_json\<close>, returning the new value of \<open>node\<close>. In the branch of a split
  the local \<open>normal_index\<close> is declared without a value and assigned in the two branches
  that find the feature or its negation; when neither is found it is read unassigned. The
  members \<open>"false"\<close> and \<open>"true"\<close> are translated in place, in this order, after
  \<open>node["feature"]\<close> was assigned.
\<close>

function translate_json :: "json \<Rightarrow> int list \<Rightarrow> int list \<Rightarrow> nat \<Rightarrow> error + json" where
  "translate_json (JObj node) main alternative n_features =
     (if has_key node ''prediction'' then
        (case get_int (obj_get node ''prediction'') of
           Inl e \<Rightarrow> Inl e
         | Inr prediction \<Rightarrow>
             (let cannonical_index = int32 (prediction + int n_features);
                  normal_index = find_distance main cannonical_index
              in case vector_at alternative normal_index of
                   Inl e \<Rightarrow> Inl e
                 | Inr alternative_value \<Rightarrow>
                     (let alternative_index = int32 (alternative_value - int n_features)
                      in Inr (JObj (obj_put ''prediction'' (JNum (of_int alternative_index)) node)))))
      else if has_key node ''feature'' then
        (case get_int (obj_get node ''feature'') of
           Inl e \<Rightarrow> Inl e
         | Inr cannonical_index \<Rightarrow>
        (case (if cannonical_index \<in> set main then
                 Inr (find_distance main cannonical_index, False)
               else if int32 (- cannonical_index) \<in> set main then
                 Inr (find_distance main (int32 (- cannonical_index)), True)
               else Inl Undefined_behaviour) of
           Inl e \<Rightarrow> Inl e
         | Inr (normal_index, flip) \<Rightarrow>
        (case vector_at alternative normal_index of
           Inl e \<Rightarrow> Inl e
         | Inr alternative_index \<Rightarrow>
        (case translate_json (obj_get node ''false'') main alternative n_features of
           Inl e \<Rightarrow> Inl e
         | Inr false_node \<Rightarrow>
        (case translate_json (obj_get node ''true'') main alternative n_features of
           Inl e \<Rightarrow> Inl e
         | Inr true_node \<Rightarrow>
             (let flip = (if alternative_index < 0 then \<not> flip else flip);
                  node = obj_put ''feature'' (JNum (of_int (int32 \<bar>alternative_index\<bar>))) node;
                  node = obj_put ''false'' false_node node;
                  node = obj_put ''true'' true_node node
              in if flip then
                   (let node = obj_put ''swap'' (obj_get node ''true'') node;
                        node = obj_put ''true'' (obj_get node ''false'') node;
                        node = obj_put ''false'' (obj_get node ''swap'') node;
                        node = obj_erase ''swap'' node
                    in Inr (JObj node))
                 else Inr (JObj node)))))))
      else Inr (JObj node))"
| "translate_json JNull main alternative n_features = Inr JNull"
| "translate_json (JBool b) main alternative n_features = Inr (JBool b)"
| "translate_json (JNum n) main alternative n_features = Inr (JNum n)"
| "translate_json (JStr s) main alternative n_features = Inr (JStr s)"
| "translate_json (JArr xs) main alternative n_features = Inr (JArr xs)"
  by pat_completeness auto
termination
proof (relation "measure (\<lambda>(node, main, alternative, n_features). size node)")
  have member_smaller:
    "size (obj_get node k) < Suc (size_list (size_prod (\<lambda>x. 0) size) node)" for node k
    by (induction node) (auto simp: obj_get_def)
  fix node :: "(string \<times> json) list" and main alternative :: "int list" and n_features :: nat
  show "((obj_get node ''false'', main, alternative, n_features),
         (JObj node, main, alternative, n_features))
        \<in> measure (\<lambda>(node, main, alternative, n_features). size node)"
    using member_smaller [of node "''false''"] by simp
  show "((obj_get node ''true'', main, alternative, n_features),
         (JObj node, main, alternative, n_features))
        \<in> measure (\<lambda>(node, main, alternative, n_features). size node)"
    using member_smaller [of node "''true''"] by simp
qed simp

section \<open>The summarized node as the specification describes it\<close>

text \<open>
  The intersection of two bounds: a null bound of either side gives way to the bound of the
  other side (two nulls stay null), two bounds are combined by \<open>pick\<close>, the maximum for
  lower bounds and the minimum for upper bounds.
\<close>

definition meet_bound :: "(json \<Rightarrow> json \<Rightarrow> json) \<Rightarrow> json \<Rightarrow> json \<Rightarrow> json" where
  "meet_bound pick parent grandchild =
     (if parent = JNull then grandchild
      else if grandchild = JNull then parent
      else pick parent grandchild)"

text \<open>The guard of a grandchild, intersected with the guard of the parent.\<close>

fun interval_meet :: "json \<Rightarrow> json \<Rightarrow> json" where
  "interval_meet (JArr [parent_lower, parent_upper]) (JArr [lower, upper]) =
     JArr [meet_bound json_max parent_lower lower, meet_bound json_min parent_upper upper]"
| "interval_meet parent guard = guard"

text \<open>A member of a document that is read, not written: null when there is none.\<close>

definition member :: "json \<Rightarrow> string \<Rightarrow> json" where
  "member j k = (case j of JObj node \<Rightarrow> obj_get node k | _ \<Rightarrow> JNull)"

text \<open>One element of \<open>"children"\<close>: a guard and the subtree it leads to.\<close>

definition entry :: "json \<Rightarrow> json \<Rightarrow> json" where
  "entry guard subtree = JObj [(''in'', guard), (''then'', subtree)]"

text \<open>
  The test that decides on promotion: the child is a split whose \<open>"feature"\<close> member equals
  that of the node.
\<close>

definition same_feature :: "json \<Rightarrow> json \<Rightarrow> bool" where
  "same_feature feature child = (contains child ''feature'' \<and> member child ''feature'' = feature)"

text \<open>The elements of the child's own \<open>"children"\<close>, when the child is promoted.\<close>

definition promoted :: "json \<Rightarrow> json \<Rightarrow> json list" where
  "promoted feature child =
     (if same_feature feature child then items (member child ''children'') else [])"

text \<open>
  What one branch of a numeric node contributes to \<open>"children"\<close>: the child under the
  guard of the branch, or, for a child that splits on the same feature, the child's own
  entries with their guards intersected with the guard of the branch.
\<close>

definition branch :: "json \<Rightarrow> json \<Rightarrow> json \<Rightarrow> json list" where
  "branch guard feature child =
     (if same_feature feature child then
        map (\<lambda>e. entry (interval_meet guard (member e ''in'')) (member e ''then''))
          (promoted feature child)
      else [entry guard child])"

text \<open>
  An entry with an interval guard: an object whose \<open>"in"\<close> member is an array of two
  bounds. The bounds are not both two-element arrays that start with a string: the
  initialiser-list rule would read such a pair of bounds as an object.
\<close>

fun interval_entry :: "json \<Rightarrow> bool" where
  "interval_entry (JObj e) =
     (case obj_get e ''in'' of
        JArr [lower, upper] \<Rightarrow> \<not> (is_pair lower \<and> is_pair upper)
      | _ \<Rightarrow> False)"
| "interval_entry j = False"

section \<open>Partitions, hash and equality\<close>

lemma push_all_append: "push_all xs out = out @ xs"
  by (induction xs arbitrary: out) simp_all

lemma partitions_aux_append: "partitions_aux t addresses = addresses @ leaves_dfs t"
  by (induction t arbitrary: addresses) simp_all

lemma partitions_leaves: "partitions t out = out @ leaves_dfs t"
  by (simp add: partitions_def push_all_append partitions_aux_append)

lemma hash_loop_foldl:
  "hash_loop bhash xs seed =
     foldl (\<lambda>seed h. seed XOR (h + 0x9e3779b9 + push_bit 6 seed + drop_bit 2 seed)) seed
       (map bhash xs)"
  by (induction xs arbitrary: seed) simp_all

lemma eq_loop_same_length:
  "length xs = length ys \<Longrightarrow> eq_loop bne xs ys = list_all2 (\<lambda>a b. \<not> bne a b) xs ys"
  by (induction bne xs ys rule: eq_loop.induct) simp_all

lemma operator_eq_iff:
  "operator_eq bhash bne t other \<longleftrightarrow>
     hash bhash t = hash bhash other \<and>
     list_all2 (\<lambda>a b. \<not> bne a b) (leaves_dfs t) (leaves_dfs other)"
  by (auto simp: operator_eq_def Let_def partitions_leaves eq_loop_same_length
           dest: list_all2_lengthD)

lemma hash_foldl:
  "hash bhash t =
     foldl (\<lambda>seed h. seed XOR (h + 0x9e3779b9 + push_bit 6 seed + drop_bit 2 seed))
       (of_nat (length (map bhash (partitions t [])))) (map bhash (partitions t []))"
  by (simp add: hash_def Let_def hash_loop_foldl)

lemma hash_leaves:
  "hash bhash t =
     foldl (\<lambda>seed h. seed XOR (h + 0x9e3779b9 + push_bit 6 seed + drop_bit 2 seed))
       (of_nat (length (leaves_dfs t))) (map bhash (leaves_dfs t))"
  by (simp add: hash_def Let_def hash_loop_foldl partitions_leaves)

lemma length_leaf_losses: "length (leaf_losses t) = length (leaves_dfs t)"
  by (induction t) simp_all

lemma length_leaf_complexities: "length (leaf_complexities t) = length (leaves_dfs t)"
  by (induction t) simp_all

lemma foldl_assoc:
  assumes "\<forall>a b c. add (add a b) c = add a (add b c)"
  shows "foldl add (add a y) ys = add a (foldl add y ys)"
  using assms by (induction ys arbitrary: y) simp_all

lemma sum_seq_append:
  assumes "\<forall>a b c. add (add a b) c = add a (add b c)"
    and "sum_seq add xs = Some a" and "sum_seq add ys = Some b"
  shows "sum_seq add (xs @ ys) = Some (add a b)"
proof -
  from assms(2) obtain x xs' where xs: "xs = x # xs'" "a = foldl add x xs'"
    by (cases xs) auto
  from assms(3) obtain y ys' where ys: "ys = y # ys'" "b = foldl add y ys'"
    by (cases ys) auto
  show ?thesis
    by (simp add: xs ys foldl_assoc [OF assms(1)])
qed

lemma sum_seq_snoc:
  assumes "sum_seq add xs = Some a"
  shows "sum_seq add (xs @ [y]) = Some (add a y)"
  using assms by (cases xs) auto

lemma loss_sum_assoc:
  assumes "\<forall>a b c. add (add a b) c = add a (add b c)"
  shows "sum_seq add (leaf_losses t) = Some (loss add t)"
  by (induction t) (simp_all add: sum_seq_append [OF assms])

lemma complexity_sum_assoc:
  assumes "\<forall>a b c. add (add a b) c = add a (add b c)"
  shows "sum_seq add (leaf_complexities t) = Some (complexity add t)"
  by (induction t) (simp_all add: sum_seq_append [OF assms])

lemma loss_sum_left_comb:
  "left_comb t \<Longrightarrow> sum_seq add (leaf_losses t) = Some (loss add t)"
  by (induction t rule: left_comb.induct) (simp_all add: sum_seq_snoc)

lemma complexity_sum_left_comb:
  "left_comb t \<Longrightarrow> sum_seq add (leaf_complexities t) = Some (complexity add t)"
  by (induction t rule: left_comb.induct) (simp_all add: sum_seq_snoc)

text \<open>
  Claim C1. \<open>operator==\<close> is false when the two hashes differ. When they agree it is true
  exactly when the two \<open>partitions()\<close> sequences have the same length and no position
  holds two row-sets that \<open>Bitmask::operator!=\<close> tells apart. Two trees with different
  numbers of leaves compare unequal: the result is the value \<open>False\<close>, the function has
  no other outcome.
\<close>

theorem operator_eq_spec:
  "(hash bhash T1 \<noteq> hash bhash T2 \<longrightarrow> operator_eq bhash bne T1 T2 = False) \<and>
   (hash bhash T1 = hash bhash T2 \<longrightarrow>
      operator_eq bhash bne T1 T2 =
        (length (partitions T1 []) = length (partitions T2 []) \<and>
         (\<forall>i < length (partitions T1 []).
            \<not> bne (partitions T1 [] ! i) (partitions T2 [] ! i)))) \<and>
   (length (partitions T1 []) \<noteq> length (partitions T2 []) \<longrightarrow>
      operator_eq bhash bne T1 T2 = False)"
  by (auto simp: operator_eq_iff partitions_leaves list_all2_conv_all_nth)

theorem operator_eq_spec_witness:
  "hash word_of_nat (Leaf 1 () () (3::nat)) \<noteq> hash word_of_nat (Leaf 1 () () (4::nat)) \<and>
   operator_eq word_of_nat (\<noteq>) (Leaf 1 () () (3::nat)) (Leaf 1 () () (4::nat)) = False \<and>
   hash word_of_nat (Split 1 1 (Leaf 0 () () (3::nat)) (Split 2 2 (Leaf 1 () () 4) (Leaf 0 () () 5)))
     = hash word_of_nat (Split 7 9 (Split 8 8 (Leaf 0 () () 3) (Leaf 1 () () 4)) (Leaf 0 () () 5)) \<and>
   operator_eq word_of_nat (\<noteq>)
     (Split 1 1 (Leaf 0 () () (3::nat)) (Split 2 2 (Leaf 1 () () 4) (Leaf 0 () () 5)))
     (Split 7 9 (Split 8 8 (Leaf 0 () () 3) (Leaf 1 () () 4)) (Leaf 0 () () 5)) = True \<and>
   length (partitions (Leaf 1 () () (3::nat)) [])
     \<noteq> length (partitions (Split 1 1 (Leaf 0 () () (3::nat)) (Leaf 1 () () 4)) []) \<and>
   operator_eq word_of_nat (\<noteq>) (Leaf 1 () () (3::nat)) (Split 1 1 (Leaf 0 () () 3) (Leaf 1 () () 4))
     = False"
proof -
  let ?h = "word_of_nat :: nat \<Rightarrow> size_t"
  let ?A = "Leaf 1 () () (3::nat) :: (nat, unit) model"
  let ?B = "Leaf 1 () () (4::nat) :: (nat, unit) model"
  let ?S = "Split 1 1 (Leaf 0 () () (3::nat)) (Split 2 2 (Leaf 1 () () 4) (Leaf 0 () () 5))
              :: (nat, unit) model"
  let ?S' = "Split 7 9 (Split 8 8 (Leaf 0 () () (3::nat)) (Leaf 1 () () 4)) (Leaf 0 () () 5)
              :: (nat, unit) model"
  let ?P = "Split 1 1 (Leaf 0 () () (3::nat)) (Leaf 1 () () 4) :: (nat, unit) model"
  have differ: "hash ?h ?A \<noteq> hash ?h ?B"
    by (simp add: hash_def partitions_def)
  have agree: "hash ?h ?S = hash ?h ?S'"
    by (simp add: hash_def partitions_def)
  have same: "length (partitions ?S []) = length (partitions ?S' []) \<and>
      (\<forall>i < length (partitions ?S []). \<not> (partitions ?S [] ! i \<noteq> partitions ?S' [] ! i))"
    by (simp add: partitions_def)
  have count: "length (partitions ?A []) \<noteq> length (partitions ?P [])"
    by (simp add: partitions_def)
  from differ operator_eq_spec [of ?h ?A ?B "(\<noteq>)"]
  have 1: "operator_eq ?h (\<noteq>) ?A ?B = False" by blast
  from agree same operator_eq_spec [of ?h ?S ?S' "(\<noteq>)"]
  have 2: "operator_eq ?h (\<noteq>) ?S ?S' = True" by blast
  from count operator_eq_spec [of ?h ?A ?P "(\<noteq>)"]
  have 3: "operator_eq ?h (\<noteq>) ?A ?P = False" by blast
  from differ agree count 1 2 3 show ?thesis by blast
qed

text \<open>
  Claim C2. \<open>hash\<close> starts from the number of leaves of the tree and folds the hash of
  every leaf row-set into the seed, in the order of the depth-first traversal, by the step
  \<open>seed ^= h + 0x9e3779b9 + (seed << 6) + (seed >> 2)\<close>. Two trees whose partitions
  sequences carry the same row-set hashes in the same order therefore have the same hash.
\<close>

theorem hash_spec:
  "hash bhash T =
     foldl (\<lambda>seed h. seed XOR (h + 0x9e3779b9 + push_bit 6 seed + drop_bit 2 seed))
       (of_nat (length (leaves_dfs T))) (map bhash (leaves_dfs T)) \<and>
   (map bhash (leaves_dfs T) = map bhash (leaves_dfs T') \<longrightarrow>
      hash bhash T = hash bhash T') \<and>
   (map bhash (partitions T []) = map bhash (partitions T' []) \<longrightarrow>
      hash bhash T = hash bhash T')"
proof (intro conjI impI)
  show "hash bhash T =
    foldl (\<lambda>seed h. seed XOR (h + 0x9e3779b9 + push_bit 6 seed + drop_bit 2 seed))
      (of_nat (length (leaves_dfs T))) (map bhash (leaves_dfs T))"
    by (rule hash_leaves)
next
  assume same: "map bhash (leaves_dfs T) = map bhash (leaves_dfs T')"
  then have "length (leaves_dfs T) = length (leaves_dfs T')"
    by (rule map_eq_imp_length_eq)
  with same show "hash bhash T = hash bhash T'"
    by (simp only: hash_leaves)
next
  assume "map bhash (partitions T []) = map bhash (partitions T' [])"
  then have same: "map bhash (leaves_dfs T) = map bhash (leaves_dfs T')"
    by (simp only: partitions_leaves append_Nil)
  then have "length (leaves_dfs T) = length (leaves_dfs T')"
    by (rule map_eq_imp_length_eq)
  with same show "hash bhash T = hash bhash T'"
    by (simp only: hash_leaves)
qed

theorem hash_spec_witness:
  "map (\<lambda>b. word_of_nat (b mod 2) :: size_t)
       (leaves_dfs (Split 1 1 (Leaf 0 () () (3::nat)) (Leaf 1 () () 4)))
     = map (\<lambda>b. word_of_nat (b mod 2))
         (leaves_dfs (Split 2 5 (Leaf 1 () () (5::nat)) (Leaf 1 () () 6))) \<and>
   map (\<lambda>b. word_of_nat (b mod 2) :: size_t)
       (partitions (Split 1 1 (Leaf 0 () () (3::nat)) (Leaf 1 () () 4)) [])
     = map (\<lambda>b. word_of_nat (b mod 2))
         (partitions (Split 2 5 (Leaf 1 () () (5::nat)) (Leaf 1 () () 6)) []) \<and>
   hash (\<lambda>b. word_of_nat (b mod 2)) (Split 1 1 (Leaf 0 () () (3::nat)) (Leaf 1 () () 4))
     = hash (\<lambda>b. word_of_nat (b mod 2)) (Split 2 5 (Leaf 1 () () (5::nat)) (Leaf 1 () () 6)) \<and>
   hash (\<lambda>b. word_of_nat (b mod 2)) (Split 1 1 (Leaf 0 () () (3::nat)) (Leaf 1 () () 4))
     = foldl (\<lambda>seed h. seed XOR (h + 0x9e3779b9 + push_bit 6 seed + drop_bit 2 seed)) 2 [1, 0]"
proof -
  let ?h = "(\<lambda>b. word_of_nat (b mod 2)) :: nat \<Rightarrow> size_t"
  let ?S = "Split 1 1 (Leaf 0 () () (3::nat)) (Leaf 1 () () 4) :: (nat, unit) model"
  let ?S' = "Split 2 5 (Leaf 1 () () (5::nat)) (Leaf 1 () () 6) :: (nat, unit) model"
  have leaves: "map ?h (leaves_dfs ?S) = map ?h (leaves_dfs ?S')"
    by simp
  have parts: "map ?h (partitions ?S []) = map ?h (partitions ?S' [])"
    by (simp add: partitions_def)
  note spec = hash_spec [of ?h ?S ?S']
  from spec leaves have equal: "hash ?h ?S = hash ?h ?S'"
    by (rule_tac mp [OF conjunct1 [OF conjunct2]])
  from spec have "hash ?h ?S =
      foldl (\<lambda>seed h. seed XOR (h + 0x9e3779b9 + push_bit 6 seed + drop_bit 2 seed))
        (of_nat (length (leaves_dfs ?S))) (map ?h (leaves_dfs ?S))"
    by (rule conjunct1)
  then have folded: "hash ?h ?S =
      foldl (\<lambda>seed h. seed XOR (h + 0x9e3779b9 + push_bit 6 seed + drop_bit 2 seed)) 2 [1, 0]"
    by simp
  from leaves parts equal folded show ?thesis by (intro conjI)
qed

text \<open>
  Claim C3. \<open>partitions\<close> appends to its output vector the capture sets of the leaves in
  the order of a depth-first traversal that visits the negative child before the positive
  child. The order is the traversal order and nothing else: the sequence of a split is the
  sequence of its negative child followed by the sequence of its positive child, whatever
  the row-sets are.
\<close>

theorem partitions_spec:
  "partitions T [] = leaves_dfs T \<and>
   partitions T sorted_addresses = sorted_addresses @ leaves_dfs T \<and>
   partitions (Split binary_feature feature negative positive) [] =
     partitions negative [] @ partitions positive [] \<and>
   partitions (Leaf binary_target leaf_loss leaf_complexity capture_set) [] = [capture_set]"
  by (simp add: partitions_leaves)

text \<open>
  Claim C4, as the specification states it, is false for the addition of \<open>float\<close>, which
  rounds: the loss of a tree is the sum of the leaf losses in the association order of
  the tree. The tree splits into a leaf of loss \<open>1/2\<close> and a split of two leaves of loss
  \<open>2^-25\<close> and \<open>2^-26\<close>: \<open>loss()\<close> is \<open>1/2 + 2^-24\<close>, the sum taken along the sequence
  \<open>1/2, 2^-25, 2^-26\<close> is \<open>1/2\<close>, and the exact sum of the three values is neither.
\<close>

theorem loss_not_sequence_sum:
  "leaf_losses (Split 1 1 (Leaf 0 (1 / 2 :: rat) (1 / 128) (1::nat))
        (Split 2 2 (Leaf 1 (1 / 2 ^ 25) (1 / 128) 2) (Leaf 0 (1 / 2 ^ 26) (1 / 128) 4))) = [1 / 2, 1 / 2 ^ 25, 1 / 2 ^ 26] \<and>
   length (partitions (Split 1 1 (Leaf 0 (1 / 2 :: rat) (1 / 128) (1::nat))
        (Split 2 2 (Leaf 1 (1 / 2 ^ 25) (1 / 128) 2) (Leaf 0 (1 / 2 ^ 26) (1 / 128) 4))) []) = 3 \<and>
   loss float_add (Split 1 1 (Leaf 0 (1 / 2 :: rat) (1 / 128) (1::nat))
        (Split 2 2 (Leaf 1 (1 / 2 ^ 25) (1 / 128) 2) (Leaf 0 (1 / 2 ^ 26) (1 / 128) 4))) = 1 / 2 + 1 / 2 ^ 24 \<and>
   sum_seq float_add (leaf_losses (Split 1 1 (Leaf 0 (1 / 2 :: rat) (1 / 128) (1::nat))
        (Split 2 2 (Leaf 1 (1 / 2 ^ 25) (1 / 128) 2) (Leaf 0 (1 / 2 ^ 26) (1 / 128) 4)))) = Some (1 / 2) \<and>
   sum_seq float_add (leaf_losses (Split 1 1 (Leaf 0 (1 / 2 :: rat) (1 / 128) (1::nat))
        (Split 2 2 (Leaf 1 (1 / 2 ^ 25) (1 / 128) 2) (Leaf 0 (1 / 2 ^ 26) (1 / 128) 4)))) \<noteq> Some (loss float_add (Split 1 1 (Leaf 0 (1 / 2 :: rat) (1 / 128) (1::nat))
        (Split 2 2 (Leaf 1 (1 / 2 ^ 25) (1 / 128) 2) (Leaf 0 (1 / 2 ^ 26) (1 / 128) 4)))) \<and>
   sum_list (leaf_losses (Split 1 1 (Leaf 0 (1 / 2 :: rat) (1 / 128) (1::nat))
        (Split 2 2 (Leaf 1 (1 / 2 ^ 25) (1 / 128) 2) (Leaf 0 (1 / 2 ^ 26) (1 / 128) 4)))) \<noteq> loss float_add (Split 1 1 (Leaf 0 (1 / 2 :: rat) (1 / 128) (1::nat))
        (Split 2 2 (Leaf 1 (1 / 2 ^ 25) (1 / 128) 2) (Leaf 0 (1 / 2 ^ 26) (1 / 128) 4)))"
proof -
  have a: "float_add (1 / 2 ^ 25) (1 / 2 ^ 26) = 3 / 2 ^ 26" by code_simp
  have b: "float_add (1 / 2) (3 / 2 ^ 26) = 1 / 2 + 1 / 2 ^ 24" by code_simp
  have c: "float_add (1 / 2) (1 / 2 ^ 25) = 1 / 2" by code_simp
  have d: "float_add (1 / 2) (1 / 2 ^ 26) = 1 / 2" by code_simp
  have e: "Some (1 / 2 :: rat) \<noteq> Some (1 / 2 + 1 / 2 ^ 24)" by simp
  have f: "(1 / 2 + (1 / 2 ^ 25 + (1 / 2 ^ 26 + 0)) :: rat) \<noteq> 1 / 2 + 1 / 2 ^ 24" by simp
  have g: "length (partitions (Split 1 1 (Leaf 0 (1 / 2 :: rat) (1 / 128) (1::nat))
        (Split 2 2 (Leaf 1 (1 / 2 ^ 25) (1 / 128) 2) (Leaf 0 (1 / 2 ^ 26) (1 / 128) 4))) []) = 3"
    by (simp add: partitions_def)
  show ?thesis
    using e f g by (simp only: leaf_losses.simps loss.simps sum_seq.simps foldl.simps
        append.simps sum_list.Cons sum_list.Nil a b c d simp_thms)
qed

text \<open>
  Claim C4, amended. The loss of a leaf is its stored loss and the loss of a split is the
  sum of the losses of its two children, nothing else is stored; likewise the complexity.
  The leaf values are as many as the leaves of \<open>partitions\<close>. The loss is the sum of the
  leaf losses along the leaf sequence for every tree when the addition is associative,
  and for every addition when the positive children of the tree are all leaves (the tree
  then adds from left to right); likewise the complexity.
\<close>

theorem loss_sum:
  "loss add (Leaf binary_target leaf_loss leaf_complexity capture_set) = leaf_loss \<and>
   complexity add (Leaf binary_target leaf_loss leaf_complexity capture_set) = leaf_complexity \<and>
   loss add (Split binary_feature feature negative positive) =
     add (loss add negative) (loss add positive) \<and>
   complexity add (Split binary_feature feature negative positive) =
     add (complexity add negative) (complexity add positive) \<and>
   length (leaf_losses T) = length (partitions T []) \<and>
   length (leaf_complexities T) = length (partitions T []) \<and>
   ((\<forall>a b c. add (add a b) c = add a (add b c)) \<longrightarrow>
      sum_seq add (leaf_losses T) = Some (loss add T) \<and>
      sum_seq add (leaf_complexities T) = Some (complexity add T)) \<and>
   (left_comb T \<longrightarrow>
      sum_seq add (leaf_losses T) = Some (loss add T) \<and>
      sum_seq add (leaf_complexities T) = Some (complexity add T))"
  by (simp add: partitions_leaves length_leaf_losses length_leaf_complexities
        loss_sum_assoc complexity_sum_assoc loss_sum_left_comb complexity_sum_left_comb)

theorem loss_sum_witness:
  "sum_seq (+) (leaf_losses (Split 1 1 (Leaf 0 (1 / 2 :: rat) (1 / 100) (1::nat))
                  (Split 2 2 (Leaf 1 (1 / 3) (1 / 100) 2) (Leaf 0 (1 / 7) (1 / 100) 4))))
     = Some (loss (+) (Split 1 1 (Leaf 0 (1 / 2 :: rat) (1 / 100) (1::nat))
                  (Split 2 2 (Leaf 1 (1 / 3) (1 / 100) 2) (Leaf 0 (1 / 7) (1 / 100) 4)))) \<and>
   left_comb (Split 1 1 (Split 2 2 (Leaf 0 (1 / 2 :: rat) (1 / 2) (1::nat))
                  (Leaf 1 (1 / 2 ^ 25) (1 / 2 ^ 25) 2)) (Leaf 0 (1 / 2 ^ 25) (1 / 2 ^ 25) 4)) \<and>
   sum_seq float_add (leaf_losses (Split 1 1 (Split 2 2 (Leaf 0 (1 / 2 :: rat) (1 / 2) (1::nat))
                  (Leaf 1 (1 / 2 ^ 25) (1 / 2 ^ 25) 2)) (Leaf 0 (1 / 2 ^ 25) (1 / 2 ^ 25) 4)))
     = Some (loss float_add (Split 1 1 (Split 2 2 (Leaf 0 (1 / 2 :: rat) (1 / 2) (1::nat))
                  (Leaf 1 (1 / 2 ^ 25) (1 / 2 ^ 25) 2)) (Leaf 0 (1 / 2 ^ 25) (1 / 2 ^ 25) 4))) \<and>
   loss float_add (Split 1 1 (Split 2 2 (Leaf 0 (1 / 2 :: rat) (1 / 2) (1::nat))
                  (Leaf 1 (1 / 2 ^ 25) (1 / 2 ^ 25) 2)) (Leaf 0 (1 / 2 ^ 25) (1 / 2 ^ 25) 4)) = 1 / 2"
proof -
  let ?R = "Split 1 1 (Leaf 0 (1 / 2 :: rat) (1 / 100) (1::nat))
              (Split 2 2 (Leaf 1 (1 / 3) (1 / 100) 2) (Leaf 0 (1 / 7) (1 / 100) 4))"
  let ?L = "Split 1 1 (Split 2 2 (Leaf 0 (1 / 2 :: rat) (1 / 2) (1::nat))
              (Leaf 1 (1 / 2 ^ 25) (1 / 2 ^ 25) 2)) (Leaf 0 (1 / 2 ^ 25) (1 / 2 ^ 25) 4)"
  have assoc: "\<forall>a b c :: rat. (a + b) + c = a + (b + c)" by simp
  have comb: "left_comb ?L" by simp
  have c: "float_add (1 / 2) (1 / 2 ^ 25) = 1 / 2" by code_simp
  have half: "loss float_add ?L = 1 / 2" by (simp only: loss.simps c)
  have 1: "sum_seq (+) (leaf_losses ?R) = Some (loss (+) ?R)"
    by (rule loss_sum [where add = "(+)" and T = ?R, THEN conjunct2, THEN conjunct2,
          THEN conjunct2, THEN conjunct2, THEN conjunct2, THEN conjunct2, THEN conjunct1,
          THEN mp, THEN conjunct1, OF assoc])
  have 2: "sum_seq float_add (leaf_losses ?L) = Some (loss float_add ?L)"
    by (rule loss_sum [where add = float_add and T = ?L, THEN conjunct2, THEN conjunct2,
          THEN conjunct2, THEN conjunct2, THEN conjunct2, THEN conjunct2, THEN conjunct2,
          THEN mp, THEN conjunct1, OF comb])
  from 1 comb 2 half show ?thesis by (intro conjI)
qed

text \<open>
  Claim C9. Take two row-sets \<open>A\<close> and \<open>B\<close> that \<open>Bitmask::operator!=\<close> tells apart. The
  tree that splits into the leaves \<open>A\<close>, \<open>B\<close> and the tree that splits, on any feature, into
  the leaves \<open>B\<close>, \<open>A\<close> have the same set of leaf row-sets and compare unequal.
\<close>

theorem operator_eq_order_sensitive:
  assumes "bne A B"
  shows "\<not> operator_eq bhash bne
             (Split f1 g1 (Leaf p1 l1 c1 A) (Leaf p2 l2 c2 B))
             (Split f2 g2 (Leaf p3 l3 c3 B) (Leaf p4 l4 c4 A)) \<and>
         set (partitions (Split f1 g1 (Leaf p1 l1 c1 A) (Leaf p2 l2 c2 B)) []) =
         set (partitions (Split f2 g2 (Leaf p3 l3 c3 B) (Leaf p4 l4 c4 A)) [])"
  using assms by (auto simp: operator_eq_iff partitions_leaves)

theorem operator_eq_order_sensitive_witness:
  "(3::nat) \<noteq> 4 \<and>
   \<not> operator_eq word_of_nat (\<noteq>)
       (Split 1 1 (Leaf 0 () () (3::nat)) (Leaf 1 () () 4))
       (Split 2 2 (Leaf 1 () () 4) (Leaf 0 () () 3)) \<and>
   set (partitions (Split 1 1 (Leaf 0 () () (3::nat)) (Leaf 1 () () (4::nat)) :: (nat, unit) model) []) =
   set (partitions (Split 2 2 (Leaf 1 () () (4::nat)) (Leaf 0 () () (3::nat)) :: (nat, unit) model) [])"
proof -
  have ne: "(3::nat) \<noteq> 4" by simp
  from operator_eq_order_sensitive [of "(\<noteq>)" "3::nat" 4, OF ne,
      of word_of_nat 1 1 0 "()" "()" 1 "()" "()" 2 2 1 "()" "()" 0 "()" "()"]
  show ?thesis using ne by blast
qed

text \<open>
  Claim C10. Equality and hash read a tree only through the sequence of its leaf row-sets:
  when the depth-first leaf sequences of two trees are equal position by position (no
  position is told apart by \<open>Bitmask::operator!=\<close>, and \<open>Bitmask::hash\<close> agrees on row-sets
  that are not told apart), the trees compare equal and have the same hash, whatever
  their split features, depths and shapes are.
\<close>

theorem equality_reads_leaves_only:
  assumes "list_all2 (\<lambda>a b. \<not> bne a b) (leaves_dfs T1) (leaves_dfs T2)"
    and "\<forall>a b. \<not> bne a b \<longrightarrow> bhash a = bhash b"
  shows "operator_eq bhash bne T1 T2 \<and> hash bhash T1 = hash bhash T2"
proof -
  from assms have "map bhash (leaves_dfs T1) = map bhash (leaves_dfs T2)"
    by (induction rule: list_all2_induct) simp_all
  moreover have "length (leaves_dfs T1) = length (leaves_dfs T2)"
    using assms(1) by (rule list_all2_lengthD)
  ultimately have "hash bhash T1 = hash bhash T2"
    by (simp add: hash_def Let_def partitions_leaves hash_loop_foldl)
  with assms(1) show ?thesis by (simp add: operator_eq_iff)
qed

theorem equality_reads_leaves_only_witness:
  "list_all2 (\<lambda>a b. \<not> a \<noteq> b)
     (leaves_dfs (Split 1 1 (Leaf 0 () () (3::nat)) (Split 2 2 (Leaf 1 () () 4) (Leaf 0 () () 5))))
     (leaves_dfs (Split 7 9 (Split 8 8 (Leaf 0 () () 3) (Leaf 1 () () 4)) (Leaf 0 () () 5))) \<and>
   operator_eq word_of_nat (\<noteq>)
     (Split 1 1 (Leaf 0 () () (3::nat)) (Split 2 2 (Leaf 1 () () 4) (Leaf 0 () () 5)))
     (Split 7 9 (Split 8 8 (Leaf 0 () () 3) (Leaf 1 () () 4)) (Leaf 0 () () 5)) \<and>
   hash word_of_nat (Split 1 1 (Leaf 0 () () (3::nat)) (Split 2 2 (Leaf 1 () () 4) (Leaf 0 () () 5)))
     = hash word_of_nat (Split 7 9 (Split 8 8 (Leaf 0 () () 3) (Leaf 1 () () 4)) (Leaf 0 () () 5))"
proof -
  let ?h = "word_of_nat :: nat \<Rightarrow> size_t"
  let ?S = "Split 1 1 (Leaf 0 () () (3::nat)) (Split 2 2 (Leaf 1 () () 4) (Leaf 0 () () 5))
              :: (nat, unit) model"
  let ?S' = "Split 7 9 (Split 8 8 (Leaf 0 () () (3::nat)) (Leaf 1 () () 4)) (Leaf 0 () () 5)
              :: (nat, unit) model"
  have leaves: "list_all2 (\<lambda>a b. \<not> a \<noteq> b) (leaves_dfs ?S) (leaves_dfs ?S')"
    by simp
  have compatible: "\<forall>a b. \<not> a \<noteq> b \<longrightarrow> ?h a = ?h b"
    by simp
  from equality_reads_leaves_only [of "(\<noteq>)" ?S ?S' ?h, OF leaves compatible] leaves
  show ?thesis by blast
qed

section \<open>Documents: members, guards and the two loops of \<open>summarize\<close>\<close>

lemma map_of_obj_put:
  "map_of (obj_put k v node) k' = (if k' = k then Some v else map_of node k')"
  by (induction node) auto

lemma map_of_obj_erase:
  "map_of (obj_erase k node) k' = (if k' = k then None else map_of node k')"
  by (induction node) (auto simp: obj_erase_def)

lemma obj_get_put: "obj_get (obj_put k v node) k' = (if k' = k then v else obj_get node k')"
  by (simp add: obj_get_def map_of_obj_put)

lemma obj_get_erase: "obj_get (obj_erase k node) k' = (if k' = k then JNull else obj_get node k')"
  by (simp add: obj_get_def map_of_obj_erase)

lemma has_key_put: "has_key (obj_put k v node) k' = (k' = k \<or> has_key node k')"
  by (simp add: has_key_def map_of_obj_put)

lemma has_key_erase: "has_key (obj_erase k node) k' = (k' \<noteq> k \<and> has_key node k')"
  by (simp add: has_key_def map_of_obj_erase)

lemma obj_get_ref: "obj_get (obj_ref node k) k' = obj_get node k'"
  by (simp add: obj_ref_def obj_get_def map_of_obj_put has_key_def split: option.splits)

lemma has_key_ref: "has_key (obj_ref node k) k' = (k' = k \<or> has_key node k')"
  by (auto simp: obj_ref_def has_key_put)

lemma obj_get_absent: "\<not> has_key node k \<Longrightarrow> obj_get node k = JNull"
  by (simp add: has_key_def obj_get_def)

lemmas obj_simps = obj_get_put obj_get_erase has_key_put has_key_erase obj_get_ref has_key_ref

lemma init_list_entry:
  "init_list [JArr [JStr ''in'', c], JArr [JStr ''then'', t]] = JObj [(''in'', c), (''then'', t)]"
  by (simp add: init_list_def has_key_def)

lemma init_list_not_pair: "\<not> (is_pair a \<and> is_pair b) \<Longrightarrow> init_list [a, b] = JArr [a, b]"
  by (auto simp: init_list_def)

lemma summarize_no_feature: "\<not> contains node ''feature'' \<Longrightarrow> summarize node = Inr node"
  by (cases node) (simp_all add: contains_def)

lemma summarize_split_null:
  assumes "obj_get m ''true'' = JNull" "obj_get m ''false'' = JNull"
  shows "\<exists>c0 c1 d2. summarize_split m = Inr (JObj d2) \<and>
           obj_get d2 ''children'' =
             JArr [JObj [(''in'', c0), (''then'', JNull)], JObj [(''in'', c1), (''then'', JNull)]]"
  using assms
  by (simp add: summarize_split_def Let_def obj_simps obj_get_def [of "_ # _"] contains_def
        init_list_entry)

lemma summarize_split_members:
  assumes "summarize_split m = Inr d"
  shows "\<exists>d'. d = JObj d' \<and> has_key d' ''feature'' = has_key m ''feature'' \<and>
           \<not> has_key d' ''true'' \<and> \<not> has_key d' ''false''"
  using assms
  by (auto simp: summarize_split_def Let_def obj_simps split: sum.splits)

lemma intersect_interval:
  "intersect (JArr [pl, pu]) (JArr [l, u]) =
     Inr (JArr [meet_bound json_max pl l, meet_bound json_min pu u])"
  by (simp add: intersect_def intersect_bound_def at_index_def set_index_def meet_bound_def)

lemma interval_entryE:
  assumes "interval_entry e"
  obtains node l u where "e = JObj node" "obj_get node ''in'' = JArr [l, u]"
    "\<not> (is_pair l \<and> is_pair u)"
proof (cases e)
  case (JObj node)
  with assms obtain xs where xs: "obj_get node ''in'' = JArr xs"
    by (auto split: json.splits)
  with assms JObj obtain l u where "xs = [l, u]" "\<not> (is_pair l \<and> is_pair u)"
    by (auto split: list.splits)
  with JObj xs that show ?thesis by blast
qed (use assms in simp_all)

lemma promote_loop_numeric:
  assumes "list_all interval_entry es"
  shows "promote_loop True categorical (JArr [pl, pu]) es new_children =
     Inr (new_children @
          map (\<lambda>e. entry (interval_meet (JArr [pl, pu]) (member e ''in'')) (member e ''then'')) es)"
  using assms
proof (induction es arbitrary: new_children)
  case Nil
  then show ?case by simp
next
  case (Cons e es)
  from Cons.prems have "interval_entry e" and rest: "list_all interval_entry es" by simp_all
  then obtain node l u where e: "e = JObj node" "obj_get node ''in'' = JArr [l, u]"
    "\<not> (is_pair l \<and> is_pair u)"
    by (elim interval_entryE)
  from e show ?case
    by (simp add: at_key_def at_index_def init_list_not_pair intersect_interval init_list_entry
          Cons.IH [OF rest] member_def entry_def)
qed

lemma children_loop_step:
  "children_loop True categorical feature (it # rest) new_children =
     (if same_feature feature (obj_get it ''then'') then
        (case promote_loop True categorical (obj_get it ''in'')
                (promoted feature (obj_get it ''then'')) new_children of
           Inl e \<Rightarrow> Inl e
         | Inr new_children \<Rightarrow> children_loop True categorical feature rest new_children)
      else children_loop True categorical feature rest
             (new_children @ [entry (obj_get it ''in'') (obj_get it ''then'')]))"
  by (auto simp: Let_def same_feature_def promoted_def member_def contains_def at_key_def
        init_list_entry entry_def split: json.splits)

lemma children_loop_numeric:
  assumes "list_all interval_entry (promoted feature t)"
    and "list_all interval_entry (promoted feature f)"
  shows "children_loop True categorical feature
           [[(''in'', JArr [a, b]), (''then'', t)], [(''in'', JArr [c, d]), (''then'', f)]] [] =
         Inr (branch (JArr [a, b]) feature t @ branch (JArr [c, d]) feature f)"
  using assms
  by (simp add: children_loop_step obj_get_def promote_loop_numeric branch_def del: children_loop.simps(2))

lemma json_max_num: "json_max (JNum x) (JNum y) = JNum (max x y)"
  by (simp add: json_max_def max_def)

lemma json_min_num: "json_min (JNum x) (JNum y) = JNum (min x y)"
  by (simp add: json_min_def min_def)

lemma second_run:
  assumes "has_key n ''feature''" and "summarize (JObj n) = Inr d"
  shows "\<exists>c0 c1 d2. summarize d = Inr (JObj d2) \<and>
           obj_get d2 ''children'' =
             JArr [JObj [(''in'', c0), (''then'', JNull)], JObj [(''in'', c1), (''then'', JNull)]]"
proof -
  from assms obtain t f where
    "summarize_split (obj_put ''false'' f (obj_put ''true'' t n)) = Inr d"
    by (auto split: sum.splits)
  from summarize_split_members [OF this] assms(1) obtain d' where
    d: "d = JObj d'" and keys: "has_key d' ''feature''" "\<not> has_key d' ''true''" "\<not> has_key d' ''false''"
    by (auto simp: obj_simps)
  let ?m = "obj_put ''false'' JNull (obj_put ''true'' JNull d')"
  have run: "summarize (JObj d') = summarize_split ?m"
    using keys by (simp add: obj_get_absent)
  have "obj_get ?m ''true'' = JNull" "obj_get ?m ''false'' = JNull"
    by (simp_all add: obj_simps)
  from summarize_split_null [OF this] show ?thesis
    unfolding d run .
qed

section \<open>The summarizer\<close>

text \<open>
  Claim C5. At a split on an integral or rational feature the branch of \<open>"true"\<close> has the
  guard \<open>[reference, null]\<close> and the branch of \<open>"false"\<close> the guard \<open>[null, reference]\<close>. A
  child that is not promoted is entered under the guard of its branch. A child that is
  promoted (it is a split whose \<open>"feature"\<close> member equals that of the node) is replaced by
  its own entries, each guard intersected with the guard of the branch: \<open>intersect\<close> takes
  the maximum of the two lower bounds and the minimum of the two upper bounds, a null bound
  gives way to the bound of the other side, and two nulls stay null. On numbers the
  maximum and minimum of documents are those of the numbers.
\<close>

theorem summarize_numeric_guards:
  assumes "has_key node ''feature''"
    and "obj_get node ''type'' = JStr ''integral'' \<or> obj_get node ''type'' = JStr ''rational''"
    and "summarize (obj_get node ''true'') = Inr true_node"
    and "summarize (obj_get node ''false'') = Inr false_node"
    and "list_all interval_entry (promoted (obj_get node ''feature'') true_node)"
    and "list_all interval_entry (promoted (obj_get node ''feature'') false_node)"
  shows "(\<exists>node'. summarize (JObj node) = Inr (JObj node') \<and>
            obj_get node' ''children'' =
              JArr (branch (JArr [obj_get node ''reference'', JNull])
                      (obj_get node ''feature'') true_node @
                    branch (JArr [JNull, obj_get node ''reference''])
                      (obj_get node ''feature'') false_node)) \<and>
         intersect (JArr [parent_lower, parent_upper]) (JArr [lower, upper]) =
           Inr (JArr [meet_bound json_max parent_lower lower,
                      meet_bound json_min parent_upper upper]) \<and>
         json_max (JNum x) (JNum y) = JNum (max x y) \<and>
         json_min (JNum x) (JNum y) = JNum (min x y)"
proof -
  let ?m = "obj_put ''false'' false_node (obj_put ''true'' true_node node)"
  have run: "summarize (JObj node) = summarize_split ?m"
    using assms(1,3,4) by simp
  have "\<exists>node'. summarize_split ?m = Inr (JObj node') \<and>
            obj_get node' ''children'' =
              JArr (branch (JArr [obj_get node ''reference'', JNull])
                      (obj_get node ''feature'') true_node @
                    branch (JArr [JNull, obj_get node ''reference''])
                      (obj_get node ''feature'') false_node)"
    using assms(2,5,6)
    by (auto simp add: summarize_split_def Let_def obj_simps init_list_not_pair
          children_loop_numeric simp del: children_loop.simps(2))
  then show ?thesis
    unfolding run by (simp add: intersect_interval json_max_num json_min_num)
qed

theorem summarize_numeric_guards_witness:
  "\<exists>node'.
     summarize
       (JObj [(''false'', JObj [(''prediction'', JNum 0)]),
              (''feature'', JNum 1),
              (''reference'', JNum 5),
              (''true'',
               JObj [(''false'', JObj [(''prediction'', JNum 1)]),
                     (''feature'', JNum 1),
                     (''reference'', JNum 8),
                     (''true'', JObj [(''prediction'', JNum 2)]),
                     (''type'', JStr ''integral'')]),
              (''type'', JStr ''integral'')]) = Inr (JObj node') \<and>
     obj_get node' ''children'' =
       JArr [JObj [(''in'', JArr [JNum 8, JNull]), (''then'', JObj [(''prediction'', JNum 2)])],
             JObj [(''in'', JArr [JNum 5, JNum 8]), (''then'', JObj [(''prediction'', JNum 1)])],
             JObj [(''in'', JArr [JNull, JNum 5]), (''then'', JObj [(''prediction'', JNum 0)])]]"
proof -
  let ?inner = "[(''false'', JObj [(''prediction'', JNum 1)]),
                 (''feature'', JNum 1),
                 (''reference'', JNum 8),
                 (''true'', JObj [(''prediction'', JNum 2)]),
                 (''type'', JStr ''integral'')]"
  let ?node = "[(''false'', JObj [(''prediction'', JNum 0)]),
                (''feature'', JNum 1),
                (''reference'', JNum 5),
                (''true'', JObj ?inner),
                (''type'', JStr ''integral'')]"
  let ?t = "JObj [(''children'',
                   JArr [JObj [(''in'', JArr [JNum 8, JNull]),
                               (''then'', JObj [(''prediction'', JNum 2)])],
                         JObj [(''in'', JArr [JNull, JNum 8]),
                               (''then'', JObj [(''prediction'', JNum 1)])]]),
                  (''feature'', JNum 1),
                  (''type'', JStr ''integral'')]"
  let ?f = "JObj [(''prediction'', JNum 0)]"
  have 1: "has_key ?node ''feature''"
    by (simp add: has_key_def)
  have 2: "obj_get ?node ''type'' = JStr ''integral'' \<or> obj_get ?node ''type'' = JStr ''rational''"
    by (simp add: obj_get_def)
  have 3: "summarize (obj_get ?node ''true'') = Inr ?t"
    by (simp add: has_key_def obj_get_def obj_erase_def obj_ref_def contains_def at_key_def
          init_list_def summarize_split_def Let_def)
  have 4: "summarize (obj_get ?node ''false'') = Inr ?f"
    by (simp add: has_key_def obj_get_def)
  have 5: "list_all interval_entry (promoted (obj_get ?node ''feature'') ?t)"
    by (simp add: promoted_def same_feature_def member_def contains_def has_key_def obj_get_def)
  have 6: "list_all interval_entry (promoted (obj_get ?node ''feature'') ?f)"
    by (simp add: promoted_def same_feature_def member_def contains_def has_key_def obj_get_def)
  from summarize_numeric_guards [OF 1 2 3 4 5 6, THEN conjunct1]
  show ?thesis
    by (simp add: branch_def promoted_def same_feature_def member_def contains_def has_key_def
          obj_get_def entry_def meet_bound_def json_max_def json_min_def)
qed

text \<open>
  Claim C6, as the specification states it, is false: a second run over a summarized
  split node changes it. The first run erased the members \<open>"true"\<close> and \<open>"false"\<close>; the
  second run reads them back as null and builds \<open>"children"\<close> from them.
\<close>

theorem summarize_not_idempotent:
  "summarize
     (JObj [(''false'', JObj [(''prediction'', JNum 0)]),
            (''feature'', JNum 1),
            (''reference'', JNum 5),
            (''true'', JObj [(''prediction'', JNum 1)]),
            (''type'', JStr ''integral'')]) =
   Inr (JObj [(''children'',
               JArr [JObj [(''in'', JArr [JNum 5, JNull]),
                           (''then'', JObj [(''prediction'', JNum 1)])],
                     JObj [(''in'', JArr [JNull, JNum 5]),
                           (''then'', JObj [(''prediction'', JNum 0)])]]),
              (''feature'', JNum 1),
              (''type'', JStr ''integral'')]) \<and>
   summarize
     (JObj [(''children'',
             JArr [JObj [(''in'', JArr [JNum 5, JNull]),
                         (''then'', JObj [(''prediction'', JNum 1)])],
                   JObj [(''in'', JArr [JNull, JNum 5]),
                         (''then'', JObj [(''prediction'', JNum 0)])]]),
            (''feature'', JNum 1),
            (''type'', JStr ''integral'')]) =
   Inr (JObj [(''children'',
               JArr [JObj [(''in'', JArr [JNull, JNull]), (''then'', JNull)],
                     JObj [(''in'', JArr [JNull, JNull]), (''then'', JNull)]]),
              (''feature'', JNum 1),
              (''type'', JStr ''integral'')]) \<and>
   summarize
     (JObj [(''children'',
             JArr [JObj [(''in'', JArr [JNum 5, JNull]),
                         (''then'', JObj [(''prediction'', JNum 1)])],
                   JObj [(''in'', JArr [JNull, JNum 5]),
                         (''then'', JObj [(''prediction'', JNum 0)])]]),
            (''feature'', JNum 1),
            (''type'', JStr ''integral'')]) \<noteq>
   Inr (JObj [(''children'',
               JArr [JObj [(''in'', JArr [JNum 5, JNull]),
                           (''then'', JObj [(''prediction'', JNum 1)])],
                     JObj [(''in'', JArr [JNull, JNum 5]),
                           (''then'', JObj [(''prediction'', JNum 0)])]]),
              (''feature'', JNum 1),
              (''type'', JStr ''integral'')])"
  by (simp add: has_key_def obj_get_def obj_erase_def obj_ref_def contains_def at_key_def
        init_list_def summarize_split_def Let_def)

text \<open>
  Claim C6, amended. A run of \<open>summarize\<close> leaves a document with no \<open>"feature"\<close> member
  unchanged, so a second run leaves a summarized leaf unchanged. A second run over the
  result of summarizing a split node succeeds and rebuilds \<open>"children"\<close> as two entries
  whose subtrees are null.
\<close>

theorem summarize_second_run:
  "(\<not> contains leaf ''feature'' \<longrightarrow> summarize leaf = Inr leaf) \<and>
   (has_key node ''feature'' \<and> summarize (JObj node) = Inr summarized \<longrightarrow>
      (\<exists>guard0 guard1 node'.
         summarize summarized = Inr (JObj node') \<and>
         obj_get node' ''children'' = JArr [entry guard0 JNull, entry guard1 JNull]))"
proof (intro conjI impI)
  assume "\<not> contains leaf ''feature''"
  then show "summarize leaf = Inr leaf" by (rule summarize_no_feature)
next
  assume run: "has_key node ''feature'' \<and> summarize (JObj node) = Inr summarized"
  from second_run [OF conjunct1 [OF run] conjunct2 [OF run]]
  show "\<exists>guard0 guard1 node'.
         summarize summarized = Inr (JObj node') \<and>
         obj_get node' ''children'' = JArr [entry guard0 JNull, entry guard1 JNull]"
    by (simp add: entry_def)
qed

theorem summarize_second_run_witness:
  "\<not> contains (JObj [(''prediction'', JNum 1)]) ''feature'' \<and>
   summarize (JObj [(''prediction'', JNum 1)]) = Inr (JObj [(''prediction'', JNum 1)]) \<and>
   has_key [(''false'', JObj [(''prediction'', JNum 0)]),
            (''feature'', JNum 1),
            (''reference'', JNum 5),
            (''true'', JObj [(''prediction'', JNum 1)]),
            (''type'', JStr ''integral'')] ''feature'' \<and>
   summarize
     (JObj [(''false'', JObj [(''prediction'', JNum 0)]),
            (''feature'', JNum 1),
            (''reference'', JNum 5),
            (''true'', JObj [(''prediction'', JNum 1)]),
            (''type'', JStr ''integral'')]) =
   Inr (JObj [(''children'',
               JArr [JObj [(''in'', JArr [JNum 5, JNull]),
                           (''then'', JObj [(''prediction'', JNum 1)])],
                     JObj [(''in'', JArr [JNull, JNum 5]),
                           (''then'', JObj [(''prediction'', JNum 0)])]]),
              (''feature'', JNum 1),
              (''type'', JStr ''integral'')]) \<and>
   (\<exists>guard0 guard1 node'.
      summarize
        (JObj [(''children'',
                JArr [JObj [(''in'', JArr [JNum 5, JNull]),
                            (''then'', JObj [(''prediction'', JNum 1)])],
                      JObj [(''in'', JArr [JNull, JNum 5]),
                            (''then'', JObj [(''prediction'', JNum 0)])]]),
               (''feature'', JNum 1),
               (''type'', JStr ''integral'')]) = Inr (JObj node') \<and>
      obj_get node' ''children'' = JArr [entry guard0 JNull, entry guard1 JNull])"
proof -
  let ?leaf = "JObj [(''prediction'', JNum 1)]"
  let ?node = "[(''false'', JObj [(''prediction'', JNum 0)]),
                (''feature'', JNum 1),
                (''reference'', JNum 5),
                (''true'', JObj [(''prediction'', JNum 1)]),
                (''type'', JStr ''integral'')]"
  let ?d = "JObj [(''children'',
                   JArr [JObj [(''in'', JArr [JNum 5, JNull]),
                               (''then'', JObj [(''prediction'', JNum 1)])],
                         JObj [(''in'', JArr [JNull, JNum 5]),
                               (''then'', JObj [(''prediction'', JNum 0)])]]),
                  (''feature'', JNum 1),
                  (''type'', JStr ''integral'')]"
  have 1: "\<not> contains ?leaf ''feature''"
    by (simp add: contains_def has_key_def)
  have 2: "has_key ?node ''feature''"
    by (simp add: has_key_def)
  have 3: "summarize (JObj ?node) = Inr ?d"
    by (simp add: has_key_def obj_get_def obj_erase_def obj_ref_def contains_def at_key_def
          init_list_def summarize_split_def Let_def)
  from summarize_second_run [of ?leaf ?node ?d] 1
  have 4: "summarize ?leaf = Inr ?leaf" by blast
  from summarize_second_run [of ?leaf ?node ?d] 2 3
  have 5: "\<exists>guard0 guard1 node'.
      summarize ?d = Inr (JObj node') \<and>
      obj_get node' ''children'' = JArr [entry guard0 JNull, entry guard1 JNull]"
    by blast
  from 1 4 2 3 5 show ?thesis by (intro conjI)
qed

section \<open>The index translator\<close>

text \<open>
  Claim C7. At a split whose feature id, or else the negation of the id, is in the main
  table: the position found is that of the id, or that of its negation with the flip flag
  raised; a negative entry of the alternate table at this position toggles the flag; the
  \<open>"feature"\<close> member becomes the absolute value of the entry; and after both children
  were translated, \<open>"false"\<close> and \<open>"true"\<close> are exchanged exactly when the flag is set.
\<close>

theorem translate_json_split:
  assumes "\<not> has_key node ''prediction''" and "has_key node ''feature''"
    and "get_int (obj_get node ''feature'') = Inr c"
    and "c \<in> set main \<or> int32 (- c) \<in> set main"
    and "normal_index =
           (if c \<in> set main then find_distance main c else find_distance main (int32 (- c)))"
    and "vector_at alternative normal_index = Inr a"
    and "translate_json (obj_get node ''false'') main alternative n_features = Inr f"
    and "translate_json (obj_get node ''true'') main alternative n_features = Inr t"
    and "flip = ((c \<notin> set main) \<noteq> (a < 0))"
  shows "\<exists>node'. translate_json (JObj node) main alternative n_features = Inr (JObj node') \<and>
           obj_get node' ''feature'' = JNum (of_int (int32 \<bar>a\<bar>)) \<and>
           obj_get node' ''false'' = (if flip then t else f) \<and>
           obj_get node' ''true'' = (if flip then f else t)"
  using assms by (auto simp: Let_def obj_simps)

theorem translate_json_split_witness:
  "(\<exists>node'. translate_json
        (JObj [(''false'', JObj [(''prediction'', JNum 0)]), (''feature'', JNum 3),
               (''true'', JObj [(''prediction'', JNum 1)])])
        [4, 5, 2, - 3] [4, 5, - 7, 8] 4 = Inr (JObj node') \<and>
      obj_get node' ''feature'' = JNum 8 \<and>
      obj_get node' ''false'' = JObj [(''prediction'', JNum 1)] \<and>
      obj_get node' ''true'' = JObj [(''prediction'', JNum 0)]) \<and>
   (\<exists>node'. translate_json
        (JObj [(''false'', JObj [(''prediction'', JNum 0)]), (''feature'', JNum 5),
               (''true'', JObj [(''prediction'', JNum 1)])])
        [4, 5, 2, - 3] [4, 5, - 7, 8] 4 = Inr (JObj node') \<and>
      obj_get node' ''feature'' = JNum 5 \<and>
      obj_get node' ''false'' = JObj [(''prediction'', JNum 0)] \<and>
      obj_get node' ''true'' = JObj [(''prediction'', JNum 1)])"
proof -
  let ?flipped = "[(''false'', JObj [(''prediction'', JNum 0)]), (''feature'', JNum 3),
                   (''true'', JObj [(''prediction'', JNum 1)])]"
  let ?kept = "[(''false'', JObj [(''prediction'', JNum 0)]), (''feature'', JNum 5),
                (''true'', JObj [(''prediction'', JNum 1)])]"
  let ?main = "[4, 5, 2, - 3] :: int list"
  let ?alt = "[4, 5, - 7, 8] :: int list"
  have false_leaf: "translate_json (JObj [(''prediction'', JNum 0)]) ?main ?alt 4 =
      Inr (JObj [(''prediction'', JNum 0)])"
    by (simp add: has_key_def obj_get_def get_int_def int32_def truncate_def vector_at_def)
  have true_leaf: "translate_json (JObj [(''prediction'', JNum 1)]) ?main ?alt 4 =
      Inr (JObj [(''prediction'', JNum 1)])"
    by (simp add: has_key_def obj_get_def get_int_def int32_def truncate_def vector_at_def)
  have a1: "\<not> has_key ?flipped ''prediction''" by (simp add: has_key_def)
  have a2: "has_key ?flipped ''feature''" by (simp add: has_key_def)
  have a3: "get_int (obj_get ?flipped ''feature'') = Inr 3"
    by (simp add: obj_get_def get_int_def int32_def truncate_def)
  have a4: "3 \<in> set ?main \<or> int32 (- 3) \<in> set ?main" by (simp add: int32_def)
  have a5: "3 = (if 3 \<in> set ?main then find_distance ?main 3
                 else find_distance ?main (int32 (- 3)))"
    by (simp add: int32_def)
  have a6: "vector_at ?alt 3 = Inr 8" by (simp add: vector_at_def)
  have a7: "translate_json (obj_get ?flipped ''false'') ?main ?alt 4 =
      Inr (JObj [(''prediction'', JNum 0)])"
    using false_leaf by (simp add: obj_get_def)
  have a8: "translate_json (obj_get ?flipped ''true'') ?main ?alt 4 =
      Inr (JObj [(''prediction'', JNum 1)])"
    using true_leaf by (simp add: obj_get_def)
  have a9: "True = ((3 \<notin> set ?main) \<noteq> ((8::int) < 0))" by simp
  have b1: "\<not> has_key ?kept ''prediction''" by (simp add: has_key_def)
  have b2: "has_key ?kept ''feature''" by (simp add: has_key_def)
  have b3: "get_int (obj_get ?kept ''feature'') = Inr 5"
    by (simp add: obj_get_def get_int_def int32_def truncate_def)
  have b4: "5 \<in> set ?main \<or> int32 (- 5) \<in> set ?main" by simp
  have b5: "1 = (if 5 \<in> set ?main then find_distance ?main 5
                 else find_distance ?main (int32 (- 5)))"
    by simp
  have b6: "vector_at ?alt 1 = Inr 5" by (simp add: vector_at_def)
  have b7: "translate_json (obj_get ?kept ''false'') ?main ?alt 4 =
      Inr (JObj [(''prediction'', JNum 0)])"
    using false_leaf by (simp add: obj_get_def)
  have b8: "translate_json (obj_get ?kept ''true'') ?main ?alt 4 =
      Inr (JObj [(''prediction'', JNum 1)])"
    using true_leaf by (simp add: obj_get_def)
  have b9: "False = ((5 \<notin> set ?main) \<noteq> ((5::int) < 0))" by simp
  from translate_json_split [OF a1 a2 a3 a4 a5 a6 a7 a8 a9]
    translate_json_split [OF b1 b2 b3 b4 b5 b6 b7 b8 b9]
  show ?thesis by (simp add: int32_def)
qed

text \<open>
  Claim C8 fails on the code. A leaf whose canonical index is not in the main table is
  looked up at the position one past the end of the main table: when the alternate table
  is longer than the main table the leaf is translated from that entry and nothing is
  raised; \<open>std::out_of_range\<close> is raised only when the alternate table is not longer. A
  split whose feature id and its negation are both missing reads \<open>normal_index\<close>
  unassigned: no exception is raised on this path.
\<close>

theorem translate_json_absent_index:
  "translate_json (JObj [(''prediction'', JNum 0)]) [5] [7, 9] 1 =
     Inr (JObj [(''prediction'', JNum 8)]) \<and>
   translate_json (JObj [(''prediction'', JNum 0)]) [5] [7] 1 = Inl Out_of_range \<and>
   translate_json
     (JObj [(''false'', JObj [(''prediction'', JNum 0)]), (''feature'', JNum 7),
            (''true'', JObj [(''prediction'', JNum 1)])])
     [0, 1, 2, 3] [1, 0, 2, 3] 2 = Inl Undefined_behaviour"
  by (simp add: has_key_def obj_get_def get_int_def int32_def truncate_def vector_at_def)

end
